theory Spec2Isabelle
  imports Main "HOL-Library.Word" "HOL-Library.Sublist"
begin

section \<open>Python values, byte strings and the built-ins the script calls\<close>

text \<open>
  The script \<^verbatim>\<open>tabor_settings_fix.py\<close> works on Python \<^verbatim>\<open>bytes\<close> and
  \<^verbatim>\<open>str\<close> objects. A byte is an 8-bit word, a \<^verbatim>\<open>bytes\<close> object a list of
  them. A \<^verbatim>\<open>str\<close> is the list of its Unicode code points (Python's \<^verbatim>\<open>len\<close> of a
  \<^verbatim>\<open>str\<close> counts code points; the script only ever measures the encoded bytes).
  Every exception the script can raise on its path from the request to the result
  is a value of \<open>py_error\<close>.
\<close>

type_synonym byte = "8 word"
type_synonym bytes = "byte list"
type_synonym str = "nat list"

datatype py_error = TypeError | ValueError | KeyError | UnicodeEncodeError

text \<open>
  A string literal of the source, as a \<^verbatim>\<open>str\<close>: the code points of its
  characters. \<open>ascii\<close> gives the same characters as bytes, for writing expected
  byte strings.
\<close>

definition py_str :: "string \<Rightarrow> str" where
  "py_str s = map of_char s"

definition ascii :: "string \<Rightarrow> bytes" where
  "ascii s = map of_char s"

text \<open>
  \<^verbatim>\<open>s.encode('utf-8')\<close>. One to four bytes per code point; a surrogate
  (U+D800 to U+DFFF, which \<^verbatim>\<open>json.load\<close> can produce from an escaped lone
  surrogate) raises \<^verbatim>\<open>UnicodeEncodeError\<close>. Python's code points are below
  \<open>0x110000\<close>.
\<close>

definition utf8_char :: "nat \<Rightarrow> py_error + bytes" where
  "utf8_char c =
     (if c < 0x80 then Inr [of_nat c]
      else if c < 0x800 then Inr [of_nat (0xC0 + c div 64), of_nat (0x80 + c mod 64)]
      else if 0xD800 \<le> c \<and> c \<le> 0xDFFF then Inl UnicodeEncodeError
      else if c < 0x10000 then
        Inr [of_nat (0xE0 + c div 4096), of_nat (0x80 + (c div 64) mod 64),
             of_nat (0x80 + c mod 64)]
      else
        Inr [of_nat (0xF0 + c div 262144), of_nat (0x80 + (c div 4096) mod 64),
             of_nat (0x80 + (c div 64) mod 64), of_nat (0x80 + c mod 64)])"

fun encode_utf8 :: "str \<Rightarrow> py_error + bytes" where
  "encode_utf8 [] = Inr []"
| "encode_utf8 (c # cs) =
     (case utf8_char c of
        Inl e \<Rightarrow> Inl e
      | Inr b \<Rightarrow> (case encode_utf8 cs of Inl e \<Rightarrow> Inl e | Inr bs \<Rightarrow> Inr (b @ bs)))"

text \<open>
  \<^verbatim>\<open>bytes([n, ...])\<close>: every element must be in \<^verbatim>\<open>range(0, 256)\<close>, otherwise
  Python raises \<^verbatim>\<open>ValueError: bytes must be in range(0, 256)\<close>.
\<close>

definition bytes_of_ints :: "int list \<Rightarrow> py_error + bytes" where
  "bytes_of_ints ns =
     (if list_all (\<lambda>n. 0 \<le> n \<and> n < 256) ns then Inr (map word_of_int ns)
      else Inl ValueError)"

text \<open>
  \<^verbatim>\<open>data.find(sub)\<close>: the lowest index at which \<^verbatim>\<open>sub\<close> starts in
  \<^verbatim>\<open>data\<close>, or \<open>-1\<close> when it does not occur.
\<close>

fun find_at :: "bytes \<Rightarrow> bytes \<Rightarrow> nat \<Rightarrow> int" where
  "find_at [] sub i = (if sub = [] then int i else - 1)"
| "find_at (x # xs) sub i =
     (if prefix sub (x # xs) then int i else find_at xs sub (Suc i))"

definition bytes_find :: "bytes \<Rightarrow> bytes \<Rightarrow> int" where
  "bytes_find data sub = find_at data sub 0"

text \<open>
  \<^verbatim>\<open>buf[i:i] = bs\<close> on a \<^verbatim>\<open>bytearray\<close>: the slice bounds are clamped to the
  buffer (a negative index counts from the end, an index beyond the end is the end),
  and the bytes are inserted there.
\<close>

definition slice_index :: "nat \<Rightarrow> int \<Rightarrow> nat" where
  "slice_index n i = (if i < 0 then nat (max (int n + i) 0) else min (nat i) n)"

definition slice_insert :: "bytes \<Rightarrow> int \<Rightarrow> bytes \<Rightarrow> bytes" where
  "slice_insert buf i bs =
     take (slice_index (length buf) i) buf @ bs @ drop (slice_index (length buf) i) buf"

text \<open>
  The values a request can carry: what \<^verbatim>\<open>json.load\<close> returns (booleans, integers,
  floats, strings, \<^verbatim>\<open>None\<close>, lists, dictionaries), and \<^verbatim>\<open>bytes\<close>, which a direct
  caller can pass. A finite float is \<open>m * 2 ^ e\<close>.
\<close>

datatype pyfloat = Finite int int | PosInf | NegInf | NaN

datatype pyval =
    VBool bool
  | VInt int
  | VStr str
  | VBytes bytes
  | VFloat pyfloat
  | VNone
  | VList "pyval list"
  | VDict "(str \<times> pyval) list"

text \<open>
  \<^verbatim>\<open>v != d\<close> for a boolean \<open>d\<close>: numbers compare by value (\<^verbatim>\<open>1 == True\<close>,
  \<^verbatim>\<open>0.0 == False\<close>), every other shape differs from a boolean.
\<close>

fun float_eq_int :: "pyfloat \<Rightarrow> int \<Rightarrow> bool" where
  "float_eq_int (Finite m e) n =
     (if 0 \<le> e then m * 2 ^ nat e = n else m = n * 2 ^ nat (- e))"
| "float_eq_int f n = False"

fun py_ne :: "pyval \<Rightarrow> bool \<Rightarrow> bool" where
  "py_ne (VBool b) d = (b \<noteq> d)"
| "py_ne (VInt i) d = (i \<noteq> (if d then 1 else 0))"
| "py_ne (VFloat f) d = (\<not> float_eq_int f (if d then 1 else 0))"
| "py_ne v d = True"

section \<open>The property record codec: class SettingBytes\<close>

text \<open>
  \<^verbatim>\<open>DEFAULT_SETTINGS\<close>, the module's table of default values, and its subscription
  \<^verbatim>\<open>DEFAULT_SETTINGS[key]\<close>, which raises \<^verbatim>\<open>KeyError\<close> on a name it does not
  hold.
\<close>

definition DEFAULT_SETTINGS :: "str \<Rightarrow> bool option" where
  "DEFAULT_SETTINGS =
     map_of [(py_str ''bFullBodyIK'', True),
             (py_str ''bHoldCrouchToOpenMenu'', True),
             (py_str ''bUsingPhysicalGunstock'', False)]"

text \<open>
  An instance of \<^verbatim>\<open>SettingBytes\<close>. The fields carry the prefix \<open>sb_\<close>;
  \<open>sb_raw_value\<close> is the attribute \<^verbatim>\<open>_value\<close>, \<open>sb_value\<close> the attribute
  \<^verbatim>\<open>value\<close>.
\<close>

record setting_bytes =
  sb_key :: bytes
  sb_data_type :: bytes
  sb_padding :: bytes
  sb_raw_value :: pyval
  sb_header :: bytes
  sb_type_metadata :: bytes
  sb_value :: bytes
  sb_bytes :: bytes

text \<open>
  \<^verbatim>\<open>SettingBytes._compute_value\<close>, on the attribute \<^verbatim>\<open>_value\<close>. The test
  \<^verbatim>\<open>isinstance(v, (int, bool))\<close> holds for integers and booleans, and
  \<^verbatim>\<open>bytes([True])\<close> is the byte 1; then come \<^verbatim>\<open>str\<close>, \<^verbatim>\<open>bytes\<close> and the
  \<^verbatim>\<open>raise TypeError\<close> of the last branch.
\<close>

fun compute_value :: "pyval \<Rightarrow> py_error + bytes" where
  "compute_value (VBool b) = bytes_of_ints [if b then 1 else 0]"
| "compute_value (VInt i) = bytes_of_ints [i]"
| "compute_value (VStr s) = encode_utf8 s"
| "compute_value (VBytes b) = Inr b"
| "compute_value v = Inl TypeError"

text \<open>
  \<^verbatim>\<open>SettingBytes.__init__\<close>: the statements in the order of the source, each one
  that can raise as a case distinction.
\<close>

definition SettingBytes :: "str \<Rightarrow> str \<Rightarrow> pyval \<Rightarrow> py_error + setting_bytes" where
  "SettingBytes key data_type val =
     (case encode_utf8 key of
        Inl e \<Rightarrow> Inl e
      | Inr k \<Rightarrow>
     (case encode_utf8 data_type of
        Inl e \<Rightarrow> Inl e
      | Inr t \<Rightarrow>
     (let self_key = k @ [0];
          self_data_type = t @ [0];
          padding = replicate 8 0
      in
     (case bytes_of_ints [int (length self_key), 0, 0, 0] of
        Inl e \<Rightarrow> Inl e
      | Inr header \<Rightarrow>
     (case bytes_of_ints [int (length self_data_type), 0, 0, 0] of
        Inl e \<Rightarrow> Inl e
      | Inr type_metadata \<Rightarrow>
     (case compute_value val of
        Inl e \<Rightarrow> Inl e
      | Inr v \<Rightarrow>
          Inr \<lparr> sb_key = self_key, sb_data_type = self_data_type, sb_padding = padding,
                sb_raw_value = val, sb_header = header, sb_type_metadata = type_metadata,
                sb_value = v,
                sb_bytes = header @ self_key @ type_metadata @ self_data_type @ padding
                           @ v @ [0] \<rparr>))))))"

section \<open>The save patcher: locate_and_modify_player_settings\<close>

text \<open>
  A request is the dictionary \<^verbatim>\<open>settings\<close>, read in its iteration order: a list of
  items \<open>(key, (type, value))\<close>, where the pair is the inner dictionary with its
  entries \<^verbatim>\<open>'type'\<close> and \<^verbatim>\<open>'value'\<close>. The keys of a dictionary are distinct;
  nothing below depends on it. A request is taken to be well formed: both entries are
  there and the type tag is a string, so that the two subscriptions of the loop body
  and the call \<^verbatim>\<open>data_type.encode\<close> find what they expect.
\<close>

type_synonym value_data = "str \<times> pyval"
type_synonym request = "(str \<times> value_data) list"

text \<open>
  One pass of the loop body, up to the decision it takes: an exception, nothing to do
  (\<open>Inr None\<close>), or the bytes to insert. The key is searched in \<^verbatim>\<open>data\<close>, the
  buffer as it was read, and the record is built before the search result is looked
  at.
\<close>

definition setting_step :: "bytes \<Rightarrow> str \<times> value_data \<Rightarrow> py_error + bytes option" where
  "setting_step data item =
     (case item of (key, data_type, val) \<Rightarrow>
     (case encode_utf8 key of
        Inl e \<Rightarrow> Inl e
      | Inr k \<Rightarrow>
     (let key_bytes = k @ [0];
          key_index = bytes_find data key_bytes
      in
     (case SettingBytes key data_type val of
        Inl e \<Rightarrow> Inl e
      | Inr setting_bytes \<Rightarrow>
          if key_index = - 1 then
            (case DEFAULT_SETTINGS key of
               None \<Rightarrow> Inl KeyError
             | Some d \<Rightarrow> if py_ne val d then Inr (Some (sb_bytes setting_bytes)) else Inr None)
          else Inr None))))"

text \<open>
  The loop over \<^verbatim>\<open>settings.items()\<close>, on the state \<open>(file_modified,
  modified_data)\<close>; an exception leaves the loop and the function.
\<close>

fun settings_loop ::
  "bytes \<Rightarrow> int \<Rightarrow> request \<Rightarrow> bool \<times> bytes \<Rightarrow> py_error + (bool \<times> bytes)" where
  "settings_loop data insertion_index [] st = Inr st"
| "settings_loop data insertion_index (item # rest) (file_modified, modified_data) =
     (case setting_step data item of
        Inl e \<Rightarrow> Inl e
      | Inr None \<Rightarrow> settings_loop data insertion_index rest (file_modified, modified_data)
      | Inr (Some bs) \<Rightarrow>
          settings_loop data insertion_index rest
            (True, slice_insert modified_data insertion_index bs))"

text \<open>
  The function itself: \<open>Inr None\<close> is the return value \<^verbatim>\<open>None\<close>, \<open>Inr (Some b)\<close>
  the returned buffer, \<open>Inl e\<close> an exception that reaches the caller.
\<close>

definition locate_and_modify_player_settings :: "bytes \<Rightarrow> request \<Rightarrow> py_error + bytes option" where
  "locate_and_modify_player_settings data settings =
     (let file_modified = False;
          modified_data = data
      in
     (case encode_utf8 (py_str ''BP_Ghosts_SettingsSave_C'') of
        Inl e \<Rightarrow> Inl e
      | Inr a \<Rightarrow>
     (let data_anchor = a @ [0];
          insertion_index = bytes_find data data_anchor + int (length data_anchor)
      in
     (case settings_loop data insertion_index settings (file_modified, modified_data) of
        Inl e \<Rightarrow> Inl e
      | Inr (file_modified, modified_data) \<Rightarrow>
          Inr (if file_modified then Some modified_data else None)))))"

section \<open>Notions used to state the properties\<close>

text \<open>
  The anchor bytes the function searches for, and the insertion index it computes from
  the search result (lemma \<open>locate_char\<close> below shows that these are the values the
  function uses).
\<close>

definition anchor_marker :: bytes where
  "anchor_marker = ascii ''BP_Ghosts_SettingsSave_C'' @ [0]"

definition insertion_point :: "bytes \<Rightarrow> int" where
  "insertion_point data = bytes_find data anchor_marker + int (length anchor_marker)"

text \<open>
  The first exception a request raises, in iteration order, and the records the loop
  inserts, in iteration order; both read off \<open>setting_step\<close>, the loop body.
\<close>

fun request_fault :: "bytes \<Rightarrow> request \<Rightarrow> py_error option" where
  "request_fault data [] = None"
| "request_fault data (item # rest) =
     (case setting_step data item of Inl e \<Rightarrow> Some e | Inr r \<Rightarrow> request_fault data rest)"

fun inserted_records :: "bytes \<Rightarrow> request \<Rightarrow> bytes list" where
  "inserted_records data [] = []"
| "inserted_records data (item # rest) =
     (case setting_step data item of
        Inr (Some bs) \<Rightarrow> bs # inserted_records data rest
      | _ \<Rightarrow> inserted_records data rest)"

text \<open>
  The value shapes \<^verbatim>\<open>_compute_value\<close> accepts, and the byte layout of a record with
  encoded key \<open>k\<close>, encoded type tag \<open>t\<close> and value bytes \<open>v\<close>.
\<close>

fun supported_shape :: "pyval \<Rightarrow> bool" where
  "supported_shape (VBool b) = True"
| "supported_shape (VInt i) = True"
| "supported_shape (VStr s) = True"
| "supported_shape (VBytes b) = True"
| "supported_shape v = False"

definition record_layout :: "bytes \<Rightarrow> bytes \<Rightarrow> bytes \<Rightarrow> bytes" where
  "record_layout k t v =
     [of_nat (length k + 1), 0, 0, 0] @ k @ [0] @
     [of_nat (length t + 1), 0, 0, 0] @ t @ [0] @
     replicate 8 0 @ v @ [0]"

section \<open>Searching and splicing\<close>

text \<open>
  \<open>bytes_find\<close> misses exactly when the bytes do not occur as a contiguous block;
  when it hits, it returns the first position at which they start.
\<close>

lemma find_at_miss: "(find_at xs sub i = - 1) = (\<not> sublist sub xs)"
proof (induction xs sub i rule: find_at.induct)
  case (1 sub i)
  then show ?case by auto
next
  case (2 x xs sub i)
  then show ?case by (auto simp: sublist_Cons_right)
qed

lemma find_at_hit:
  "find_at xs sub i \<noteq> - 1 \<Longrightarrow>
   \<exists>p. find_at xs sub i = int (i + p) \<and> prefix sub (drop p xs) \<and>
       (\<forall>q<p. \<not> prefix sub (drop q xs))"
proof (induction xs sub i rule: find_at.induct)
  case (1 sub i)
  then show ?case by (auto split: if_splits)
next
  case (2 x xs sub i)
  show ?case
  proof (cases "prefix sub (x # xs)")
    case True
    then have "find_at (x # xs) sub i = int (i + 0) \<and> prefix sub (drop 0 (x # xs)) \<and>
       (\<forall>q<0. \<not> prefix sub (drop q (x # xs)))" by simp
    then show ?thesis by blast
  next
    case False
    with 2 obtain p where p: "find_at xs sub (Suc i) = int (Suc i + p)"
      "prefix sub (drop p xs)" "\<forall>q<p. \<not> prefix sub (drop q xs)"
      by auto
    have "\<forall>q<Suc p. \<not> prefix sub (drop q (x # xs))"
    proof (intro allI impI)
      fix q assume "q < Suc p"
      then show "\<not> prefix sub (drop q (x # xs))"
        using False p(3) by (cases q) auto
    qed
    with False p have "find_at (x # xs) sub i = int (i + Suc p) \<and>
       prefix sub (drop (Suc p) (x # xs)) \<and> (\<forall>q<Suc p. \<not> prefix sub (drop q (x # xs)))"
      by simp
    then show ?thesis by blast
  qed
qed

lemma bytes_find_miss: "(bytes_find data sub = - 1) = (\<not> sublist sub data)"
  by (simp add: bytes_find_def find_at_miss)

lemma prefix_drop_split:
  assumes "prefix sub (drop p xs)"
  shows "p + length sub \<le> length xs \<or> sub = []"
    and "xs = take p xs @ sub @ drop (p + length sub) xs"
proof -
  from assms obtain zs where zs: "drop p xs = sub @ zs" by (auto simp: prefix_def)
  then have "length (drop p xs) = length sub + length zs" by simp
  then show "p + length sub \<le> length xs \<or> sub = []" by (cases sub) auto
  have "drop (p + length sub) xs = drop (length sub) (drop p xs)"
    by (simp add: add.commute)
  also have "\<dots> = zs" using zs by simp
  finally have "drop (p + length sub) xs = zs" .
  moreover have "xs = take p xs @ drop p xs" by simp
  ultimately show "xs = take p xs @ sub @ drop (p + length sub) xs"
    using zs by simp
qed

lemma bytes_find_hit:
  assumes "bytes_find data sub = int p" and "sub \<noteq> []"
  shows "p + length sub \<le> length data"
    and "data = take p data @ sub @ drop (p + length sub) data"
    and "\<forall>q<p. \<not> prefix sub (drop q data)"
proof -
  from assms(1) have "find_at data sub 0 \<noteq> - 1" by (simp add: bytes_find_def)
  from find_at_hit [OF this] assms(1)
  have p: "prefix sub (drop p data)" "\<forall>q<p. \<not> prefix sub (drop q data)"
    by (auto simp: bytes_find_def)
  from prefix_drop_split [OF p(1)] assms(2)
  show "p + length sub \<le> length data"
    and "data = take p data @ sub @ drop (p + length sub) data" by auto
  show "\<forall>q<p. \<not> prefix sub (drop q data)" by (rule p(2))
qed

text \<open>
  Repeated insertion at one index within the buffer stacks the inserted blocks in
  reverse order.
\<close>

lemma slice_insert_nat:
  "j \<le> length buf \<Longrightarrow> slice_insert buf (int j) bs = take j buf @ bs @ drop j buf"
  by (simp add: slice_insert_def slice_index_def)

lemma slice_insert_24: "slice_insert m 24 r = take 24 m @ r @ drop 24 m"
  by (simp add: slice_insert_def slice_index_def min_def)

lemma foldl_slice_insert:
  "j \<le> length buf \<Longrightarrow>
   foldl (\<lambda>m r. slice_insert m (int j) r) buf recs = take j buf @ concat (rev recs) @ drop j buf"
proof (induction recs arbitrary: buf)
  case Nil
  then show ?case by simp
next
  case (Cons r recs)
  let ?b = "take j buf @ r @ drop j buf"
  from Cons.prems have len: "j \<le> length ?b" by simp
  from Cons.prems have tk: "take j ?b = take j buf" and dr: "drop j ?b = r @ drop j buf"
    by simp_all
  have "foldl (\<lambda>m r. slice_insert m (int j) r) buf (r # recs) =
        foldl (\<lambda>m r. slice_insert m (int j) r) ?b recs"
    using Cons.prems by (simp add: slice_insert_nat)
  also have "\<dots> = take j ?b @ concat (rev recs) @ drop j ?b"
    by (rule Cons.IH [OF len])
  finally show ?case by (simp only: tk dr) simp
qed

lemma length_foldl_slice_insert:
  "length (foldl (\<lambda>m r. slice_insert m i r) buf recs) = length buf + sum_list (map length recs)"
  by (induction recs arbitrary: buf) (simp_all add: slice_insert_def)

lemma sum_list_length_rev: "sum_list (map length (rev xss)) = sum_list (map length xss)"
  by (simp add: rev_map [symmetric] sum_list_rev)

section \<open>The codec\<close>

lemma encode_utf8_ascii:
  "\<forall>c \<in> set s. of_char c < (128 :: nat) \<Longrightarrow> encode_utf8 (py_str s) = Inr (ascii s)"
  by (induction s) (simp_all add: py_str_def ascii_def utf8_char_def of_nat_of_char)

lemma encode_utf8_error: "encode_utf8 s = Inl e \<Longrightarrow> e = UnicodeEncodeError"
  by (induction s arbitrary: e) (auto simp: utf8_char_def split: sum.splits if_splits)

lemma length_header: "bytes_of_ints [1 + int n, 0, 0, 0] =
   (if n < 255 then Inr [1 + of_nat n, 0, 0, 0] else Inl ValueError)"
  by (simp add: bytes_of_ints_def)

lemma SettingBytes_char:
  "SettingBytes key data_type val =
     (case encode_utf8 key of
        Inl e \<Rightarrow> Inl e
      | Inr k \<Rightarrow>
     (case encode_utf8 data_type of
        Inl e \<Rightarrow> Inl e
      | Inr t \<Rightarrow>
          if 256 \<le> length k + 1 \<or> 256 \<le> length t + 1 then Inl ValueError
          else (case compute_value val of
                  Inl e \<Rightarrow> Inl e
                | Inr v \<Rightarrow>
                    Inr \<lparr> sb_key = k @ [0], sb_data_type = t @ [0],
                          sb_padding = replicate 8 0, sb_raw_value = val,
                          sb_header = [of_nat (length k + 1), 0, 0, 0],
                          sb_type_metadata = [of_nat (length t + 1), 0, 0, 0],
                          sb_value = v, sb_bytes = record_layout k t v \<rparr>)))"
proof (cases "encode_utf8 key")
  case (Inl e)
  then show ?thesis by (simp add: SettingBytes_def)
next
  case k: (Inr k)
  show ?thesis
  proof (cases "encode_utf8 data_type")
    case (Inl e)
    with k show ?thesis by (simp add: SettingBytes_def)
  next
    case t: (Inr t)
    show ?thesis
      by (simp add: SettingBytes_def Let_def k t length_header record_layout_def
          split: sum.splits)
  qed
qed

lemma SettingBytes_Inr:
  "SettingBytes key data_type val = Inr sb \<Longrightarrow>
   \<exists>k t v. encode_utf8 key = Inr k \<and> encode_utf8 data_type = Inr t \<and>
     compute_value val = Inr v \<and> length k + 1 < 256 \<and> length t + 1 < 256 \<and>
     sb_bytes sb = record_layout k t v"
  by (auto simp: SettingBytes_char split: sum.splits if_splits)

lemma SettingBytes_ok:
  "encode_utf8 key = Inr k \<Longrightarrow> encode_utf8 data_type = Inr t \<Longrightarrow>
   compute_value val = Inr v \<Longrightarrow> length k + 1 < 256 \<Longrightarrow> length t + 1 < 256 \<Longrightarrow>
   \<exists>sb. SettingBytes key data_type val = Inr sb \<and> sb_bytes sb = record_layout k t v"
  by (simp add: SettingBytes_char)

lemma compute_value_unsupported: "\<not> supported_shape val \<Longrightarrow> compute_value val = Inl TypeError"
  by (cases val) simp_all

lemma compute_value_int:
  "compute_value (VInt i) = (if 0 \<le> i \<and> i < 256 then Inr [word_of_int i] else Inl ValueError)"
  by (simp add: bytes_of_ints_def)

lemma compute_value_bool: "compute_value (VBool b) = Inr [if b then 1 else 0]"
  by (simp add: bytes_of_ints_def)

lemma compute_value_error: "compute_value val = Inl e \<Longrightarrow> e \<noteq> KeyError"
  by (cases val) (auto simp: bytes_of_ints_def dest: encode_utf8_error split: if_splits)

lemma SettingBytes_error: "SettingBytes key data_type val = Inl e \<Longrightarrow> e \<noteq> KeyError"
  by (auto simp: SettingBytes_char split: sum.splits if_splits
           dest: encode_utf8_error compute_value_error)

lemma record_length: "19 \<le> length (record_layout k t v)"
  by (simp add: record_layout_def)

section \<open>The loop\<close>

text \<open>
  The loop body case by case, and the loop as a whole: it fails with the first
  exception of the request, and otherwise inserts the records of the request one after
  the other at the insertion index.
\<close>

lemma setting_step_char:
  "setting_step data (key, data_type, val) =
     (case encode_utf8 key of
        Inl e \<Rightarrow> Inl e
      | Inr k \<Rightarrow>
     (case SettingBytes key data_type val of
        Inl e \<Rightarrow> Inl e
      | Inr sb \<Rightarrow>
          if sublist (k @ [0]) data then Inr None
          else (case DEFAULT_SETTINGS key of
                  None \<Rightarrow> Inl KeyError
                | Some d \<Rightarrow> if py_ne val d then Inr (Some (sb_bytes sb)) else Inr None)))"
  by (simp add: setting_step_def Let_def bytes_find_miss split: sum.splits option.splits)

lemma step_present:
  "encode_utf8 key = Inr k \<Longrightarrow> sublist (k @ [0]) data \<Longrightarrow>
   setting_step data (key, data_type, val) =
     (case SettingBytes key data_type val of Inl e \<Rightarrow> Inl e | Inr sb \<Rightarrow> Inr None)"
  by (simp add: setting_step_char split: sum.splits)

lemma step_default:
  "encode_utf8 key = Inr k \<Longrightarrow> DEFAULT_SETTINGS key = Some d \<Longrightarrow> \<not> py_ne val d \<Longrightarrow>
   setting_step data (key, data_type, val) =
     (case SettingBytes key data_type val of Inl e \<Rightarrow> Inl e | Inr sb \<Rightarrow> Inr None)"
  by (simp add: setting_step_char split: sum.splits)

lemma step_insert:
  "encode_utf8 key = Inr k \<Longrightarrow> \<not> sublist (k @ [0]) data \<Longrightarrow> DEFAULT_SETTINGS key = Some d \<Longrightarrow>
   py_ne val d \<Longrightarrow>
   setting_step data (key, data_type, val) =
     (case SettingBytes key data_type val of Inl e \<Rightarrow> Inl e | Inr sb \<Rightarrow> Inr (Some (sb_bytes sb)))"
  by (simp add: setting_step_char split: sum.splits)

lemma step_KeyError_iff:
  "(setting_step data (key, data_type, val) = Inl KeyError) =
   (DEFAULT_SETTINGS key = None \<and>
    (\<exists>k sb. encode_utf8 key = Inr k \<and> \<not> sublist (k @ [0]) data \<and>
       SettingBytes key data_type val = Inr sb))"
  by (auto simp: setting_step_char split: sum.splits option.splits if_splits
           dest: encode_utf8_error SettingBytes_error)

lemma unsupported_step_faults:
  "\<not> supported_shape val \<Longrightarrow> \<exists>e. setting_step data (key, data_type, val) = Inl e"
  by (auto simp: setting_step_def SettingBytes_char compute_value_unsupported split: sum.splits)

lemma step_record_nonempty: "setting_step data item = Inr (Some bs) \<Longrightarrow> 19 \<le> length bs"
  by (cases item)
     (auto simp: setting_step_char SettingBytes_char record_length
           split: sum.splits option.splits if_splits)

lemma request_fault_append:
  "request_fault data (pre @ post) =
     (case request_fault data pre of Some e \<Rightarrow> Some e | None \<Rightarrow> request_fault data post)"
  by (induction pre) (auto split: sum.splits)

lemma inserted_records_append:
  "inserted_records data (pre @ post) = inserted_records data pre @ inserted_records data post"
  by (induction pre) (auto split: sum.splits option.splits)

lemma request_fault_None_iff:
  "(request_fault data settings = None) = (\<forall>item \<in> set settings. \<not> isl (setting_step data item))"
  by (induction settings) (auto split: sum.splits)

lemma inserted_records_Nil_iff:
  "(inserted_records data settings = []) =
   (\<forall>item \<in> set settings. \<forall>bs. setting_step data item \<noteq> Inr (Some bs))"
  by (induction settings) (auto split: sum.splits option.splits)

lemma item_fault_in_request:
  "item \<in> set settings \<Longrightarrow> setting_step data item = Inl e \<Longrightarrow>
   \<exists>e'. request_fault data settings = Some e'"
  by (induction settings) (auto split: sum.splits)

lemma request_fault_item:
  "request_fault data settings = Some e \<Longrightarrow> \<exists>item \<in> set settings. setting_step data item = Inl e"
  by (induction settings) (auto split: sum.splits)

lemma inserted_records_nonempty: "bs \<in> set (inserted_records data settings) \<Longrightarrow> 19 \<le> length bs"
  by (induction settings) (auto split: sum.splits option.splits dest: step_record_nonempty)

lemma settings_loop_char:
  "settings_loop data idx settings (fm, md) =
     (case request_fault data settings of
        Some e \<Rightarrow> Inl e
      | None \<Rightarrow> Inr (fm \<or> inserted_records data settings \<noteq> [],
                     foldl (\<lambda>m r. slice_insert m idx r) md (inserted_records data settings)))"
  by (induction settings arbitrary: fm md) (auto split: sum.splits option.splits)

lemma anchor_encode:
  "encode_utf8 (py_str ''BP_Ghosts_SettingsSave_C'') = Inr (ascii ''BP_Ghosts_SettingsSave_C'')"
  by code_simp

lemma locate_char:
  "locate_and_modify_player_settings data settings =
     (case request_fault data settings of
        Some e \<Rightarrow> Inl e
      | None \<Rightarrow>
          if inserted_records data settings = [] then Inr None
          else Inr (Some (foldl (\<lambda>m r. slice_insert m (insertion_point data) r) data
                           (inserted_records data settings))))"
  by (simp add: locate_and_modify_player_settings_def Let_def anchor_encode settings_loop_char
      insertion_point_def anchor_marker_def split: option.splits)

lemma request_fault_locate:
  "request_fault data settings = Some e \<Longrightarrow> locate_and_modify_player_settings data settings = Inl e"
  by (simp add: locate_char)

lemma locate_Inl_fault:
  "locate_and_modify_player_settings data settings = Inl e \<Longrightarrow> request_fault data settings = Some e"
  by (auto simp: locate_char split: option.splits if_splits)

lemma skip_item:
  assumes "setting_step data item = Inr None"
  shows "locate_and_modify_player_settings data (pre @ item # post) =
         locate_and_modify_player_settings data (pre @ post)"
proof -
  have f: "request_fault data (pre @ item # post) = request_fault data (pre @ post)"
    using assms by (simp add: request_fault_append split: option.splits)
  have i: "inserted_records data (pre @ item # post) = inserted_records data (pre @ post)"
    using assms by (simp add: inserted_records_append)
  show ?thesis by (simp only: locate_char f i)
qed

lemma all_noop_None:
  "\<forall>item \<in> set settings. setting_step data item = Inr None \<Longrightarrow>
   locate_and_modify_player_settings data settings = Inr None"
proof -
  assume a: "\<forall>item \<in> set settings. setting_step data item = Inr None"
  then have "request_fault data settings = None"
    by (simp add: request_fault_None_iff)
  moreover from a have "inserted_records data settings = []"
    by (simp add: inserted_records_Nil_iff)
  ultimately show ?thesis by (simp add: locate_char)
qed

lemma never_a_copy: "locate_and_modify_player_settings data settings \<noteq> Inr (Some data)"
proof
  assume eq: "locate_and_modify_player_settings data settings = Inr (Some data)"
  then have ne: "inserted_records data settings \<noteq> []"
    and out: "foldl (\<lambda>m r. slice_insert m (insertion_point data) r) data
                (inserted_records data settings) = data"
    by (auto simp: locate_char split: option.splits if_splits)
  from out have "length data + sum_list (map length (inserted_records data settings)) = length data"
    using length_foldl_slice_insert [of "insertion_point data" data "inserted_records data settings"]
    by simp
  then have z: "sum_list (map length (inserted_records data settings)) = 0" by simp
  from ne obtain r rs where rs: "inserted_records data settings = r # rs"
    by (cases "inserted_records data settings") auto
  then have "r \<in> set (inserted_records data settings)" by simp
  then have "19 \<le> length r" by (rule inserted_records_nonempty)
  with z rs show False by simp
qed

lemma length_anchor_marker: "length anchor_marker = 25"
  by (simp add: anchor_marker_def ascii_def)

lemma anchor_found_index:
  assumes "bytes_find data anchor_marker = int p"
  shows "insertion_point data = int (p + length anchor_marker)"
    and "p + length anchor_marker \<le> length data"
    and "take (p + length anchor_marker) data = take p data @ anchor_marker"
proof -
  have ne: "anchor_marker \<noteq> []" by (simp add: anchor_marker_def)
  show "insertion_point data = int (p + length anchor_marker)"
    using assms by (simp add: insertion_point_def)
  from bytes_find_hit [OF assms ne]
  have len: "p + length anchor_marker \<le> length data"
    and split: "data = take p data @ anchor_marker @ drop (p + length anchor_marker) data"
    by simp_all
  show "p + length anchor_marker \<le> length data" by (rule len)
  have "take (p + length anchor_marker) data =
        take (p + length anchor_marker) (take p data @ anchor_marker @ drop (p + length anchor_marker) data)"
    using split by simp
  also have "\<dots> = take p data @ anchor_marker"
    using len by simp
  finally show "take (p + length anchor_marker) data = take p data @ anchor_marker" .
qed

lemma anchor_absent_index:
  "\<not> sublist anchor_marker data \<Longrightarrow> insertion_point data = 24"
  by (simp add: insertion_point_def bytes_find_miss [symmetric] length_anchor_marker)

lemma locate_anchor_found:
  assumes "bytes_find data anchor_marker = int p"
    and "request_fault data settings = None"
    and "inserted_records data settings \<noteq> []"
  shows "locate_and_modify_player_settings data settings =
         Inr (Some (take p data @ anchor_marker @ concat (rev (inserted_records data settings))
                    @ drop (p + length anchor_marker) data))"
proof -
  note a = anchor_found_index [OF assms(1)]
  have "foldl (\<lambda>m r. slice_insert m (insertion_point data) r) data (inserted_records data settings)
        = take (p + length anchor_marker) data @ concat (rev (inserted_records data settings))
          @ drop (p + length anchor_marker) data"
    unfolding a(1) by (rule foldl_slice_insert [OF a(2)])
  with assms(2,3) a(3) show ?thesis by (simp add: locate_char)
qed

section \<open>The properties\<close>

subsection \<open>C1: the layout of an encoded record\<close>

text \<open>
  C1. Whenever the codec produces a record, its bytes are the 4-byte key length header
  (first byte the length of the encoded key plus one, a number below 256, then three
  zero bytes), the UTF-8 bytes of the key, a null byte, the 4-byte type length header
  built the same way, the UTF-8 bytes of the type tag, a null byte, 8 zero bytes, the
  value bytes and a final null byte. It produces one whenever key, type tag and value
  encode and both lengths fit a byte. The setting
  \<^verbatim>\<open>('bUsingPhysicalGunstock', 'BoolProperty', True)\<close> encodes to the bytes shown in
  the docstring of the script.
\<close>

theorem C1_record_layout:
  "(\<forall>sb. SettingBytes key data_type val = Inr sb \<longrightarrow>
      (\<exists>k t v. encode_utf8 key = Inr k \<and> encode_utf8 data_type = Inr t \<and>
         compute_value val = Inr v \<and> length k + 1 < 256 \<and> length t + 1 < 256 \<and>
         sb_bytes sb =
           [of_nat (length k + 1), 0, 0, 0] @ k @ [0] @
           [of_nat (length t + 1), 0, 0, 0] @ t @ [0] @
           replicate 8 0 @ v @ [0])) \<and>
   (\<forall>k t v. encode_utf8 key = Inr k \<and> encode_utf8 data_type = Inr t \<and>
      compute_value val = Inr v \<and> length k + 1 < 256 \<and> length t + 1 < 256 \<longrightarrow>
      (\<exists>sb. SettingBytes key data_type val = Inr sb)) \<and>
   map_sum id sb_bytes
     (SettingBytes (py_str ''bUsingPhysicalGunstock'') (py_str ''BoolProperty'') (VBool True)) =
   Inr ([0x17, 0, 0, 0] @ ascii ''bUsingPhysicalGunstock'' @ [0] @
        [0x0d, 0, 0, 0] @ ascii ''BoolProperty'' @ [0] @
        replicate 8 0 @ [1] @ [0])"
proof (intro conjI allI impI)
  fix sb assume "SettingBytes key data_type val = Inr sb"
  from SettingBytes_Inr [OF this]
  show "\<exists>k t v. encode_utf8 key = Inr k \<and> encode_utf8 data_type = Inr t \<and>
         compute_value val = Inr v \<and> length k + 1 < 256 \<and> length t + 1 < 256 \<and>
         sb_bytes sb =
           [of_nat (length k + 1), 0, 0, 0] @ k @ [0] @
           [of_nat (length t + 1), 0, 0, 0] @ t @ [0] @
           replicate 8 0 @ v @ [0]"
    by (simp only: record_layout_def)
next
  fix k t v
  assume "encode_utf8 key = Inr k \<and> encode_utf8 data_type = Inr t \<and>
      compute_value val = Inr v \<and> length k + 1 < 256 \<and> length t + 1 < 256"
  then show "\<exists>sb. SettingBytes key data_type val = Inr sb"
    using SettingBytes_ok [of key k data_type t val v] by blast
next
  show "map_sum id sb_bytes
     (SettingBytes (py_str ''bUsingPhysicalGunstock'') (py_str ''BoolProperty'') (VBool True)) =
   Inr ([0x17, 0, 0, 0] @ ascii ''bUsingPhysicalGunstock'' @ [0] @
        [0x0d, 0, 0, 0] @ ascii ''BoolProperty'' @ [0] @
        replicate 8 0 @ [1] @ [0])"
    by code_simp
qed

text \<open>
  The record of \<^verbatim>\<open>('bFullBodyIK', 'BoolProperty', False)\<close>, obtained from C1.
\<close>

theorem C1_record_layout_witness:
  "\<exists>sb. SettingBytes (py_str ''bFullBodyIK'') (py_str ''BoolProperty'') (VBool False) = Inr sb \<and>
     sb_bytes sb =
       [0x0c, 0, 0, 0] @ ascii ''bFullBodyIK'' @ [0] @
       [0x0d, 0, 0, 0] @ ascii ''BoolProperty'' @ [0] @ replicate 8 0 @ [0] @ [0]"
proof -
  have k: "encode_utf8 (py_str ''bFullBodyIK'') = Inr (ascii ''bFullBodyIK'')" by code_simp
  have t: "encode_utf8 (py_str ''BoolProperty'') = Inr (ascii ''BoolProperty'')" by code_simp
  have v: "compute_value (VBool False) = Inr [0]" by code_simp
  have l: "length (ascii ''bFullBodyIK'') + 1 < 256" "length (ascii ''BoolProperty'') + 1 < 256"
    by (simp_all add: ascii_def)
  from C1_record_layout [of "py_str ''bFullBodyIK''" "py_str ''BoolProperty''" "VBool False"]
  obtain sb where sb: "SettingBytes (py_str ''bFullBodyIK'') (py_str ''BoolProperty'') (VBool False) = Inr sb"
    using k t v l by blast
  with C1_record_layout [of "py_str ''bFullBodyIK''" "py_str ''BoolProperty''" "VBool False"]
  obtain k' t' v' where "encode_utf8 (py_str ''bFullBodyIK'') = Inr k'"
     "encode_utf8 (py_str ''BoolProperty'') = Inr t'" "compute_value (VBool False) = Inr v'"
     "sb_bytes sb = [of_nat (length k' + 1), 0, 0, 0] @ k' @ [0] @
           [of_nat (length t' + 1), 0, 0, 0] @ t' @ [0] @ replicate 8 0 @ v' @ [0]"
    by blast
  with k t v have "sb_bytes sb = [of_nat (length (ascii ''bFullBodyIK'') + 1), 0, 0, 0] @ ascii ''bFullBodyIK'' @ [0] @
           [of_nat (length (ascii ''BoolProperty'') + 1), 0, 0, 0] @ ascii ''BoolProperty'' @ [0] @ replicate 8 0 @ [0] @ [0]"
    by simp
  then have "sb_bytes sb =
       [0x0c, 0, 0, 0] @ ascii ''bFullBodyIK'' @ [0] @
       [0x0d, 0, 0, 0] @ ascii ''BoolProperty'' @ [0] @ replicate 8 0 @ [0] @ [0]"
    by (simp add: ascii_def)
  with sb show ?thesis by blast
qed

subsection \<open>C2: what an insertion adds, and where\<close>

text \<open>
  C2, amended. Let no requested setting raise and let the anchor occur in the buffer,
  first at offset \<open>p\<close>. For every requested setting whose null-terminated key bytes do
  not occur in the buffer and whose value differs from its entry in the default table,
  the record is encoded and a buffer is returned; its length is the input length plus
  the lengths of all records the call inserts, and the bytes of this record stand in
  the output at the insertion point \<open>p + length anchor_marker\<close> plus the total length of
  the records inserted for the settings after it in the request. When no other setting
  inserts, the length is the input length plus the length of this record, and the
  record starts exactly at the insertion point.
\<close>

theorem C2_insertion_length_and_place:
  assumes "settings = pre @ (key, data_type, val) # post"
    and "encode_utf8 key = Inr k" and "\<not> sublist (k @ [0]) data"
    and "DEFAULT_SETTINGS key = Some d" and "py_ne val d"
    and "request_fault data settings = None"
    and "bytes_find data anchor_marker = int p"
  shows "\<exists>sb out.
           SettingBytes key data_type val = Inr sb \<and>
           locate_and_modify_player_settings data settings = Inr (Some out) \<and>
           length out = length data + sum_list (map length (inserted_records data settings)) \<and>
           inserted_records data settings =
             inserted_records data pre @ sb_bytes sb # inserted_records data post \<and>
           take (length (sb_bytes sb))
             (drop (p + length anchor_marker + sum_list (map length (inserted_records data post))) out)
             = sb_bytes sb \<and>
           (inserted_records data pre = [] \<and> inserted_records data post = [] \<longrightarrow>
              length out = length data + length (sb_bytes sb) \<and>
              out = take p data @ anchor_marker @ sb_bytes sb @ drop (p + length anchor_marker) data)"
proof -
  let ?item = "(key, data_type, val)"
  from assms(1,6) have "\<not> isl (setting_step data ?item)"
    by (simp add: request_fault_None_iff)
  with step_insert [OF assms(2-5), of data_type]
  obtain sb where sb: "SettingBytes key data_type val = Inr sb"
    and st: "setting_step data ?item = Inr (Some (sb_bytes sb))"
    by (cases "SettingBytes key data_type val") auto
  let ?b = "sb_bytes sb"
  let ?ipre = "inserted_records data pre" and ?ipost = "inserted_records data post"
  have ins: "inserted_records data settings = ?ipre @ ?b # ?ipost"
    using st by (simp add: assms(1) inserted_records_append)
  then have ne: "inserted_records data settings \<noteq> []" by simp
  define lead where "lead = take p data @ anchor_marker @ concat (rev ?ipost)"
  define rest where "rest = concat (rev ?ipre) @ drop (p + length anchor_marker) data"
  define out where "out = lead @ ?b @ rest"
  have llead: "length lead = p + length anchor_marker + sum_list (map length ?ipost)"
    using anchor_found_index(2) [OF assms(7)]
    by (simp add: lead_def length_concat sum_list_length_rev)
  have loc: "locate_and_modify_player_settings data settings = Inr (Some out)"
    using locate_anchor_found [OF assms(7,6) ne]
    by (simp add: ins out_def lead_def rest_def)
  have len: "length out = length data + sum_list (map length (inserted_records data settings))"
    using anchor_found_index(2) [OF assms(7)]
    by (simp add: out_def lead_def rest_def ins length_concat sum_list_length_rev)
  have place: "take (length ?b) (drop (p + length anchor_marker + sum_list (map length ?ipost)) out) = ?b"
    unfolding llead [symmetric] out_def by simp
  have single: "length out = length data + length ?b \<and>
      out = take p data @ anchor_marker @ ?b @ drop (p + length anchor_marker) data"
    if "?ipre = [] \<and> ?ipost = []"
    using that len by (simp add: ins) (simp add: out_def lead_def rest_def that)
  from sb loc len ins place single show ?thesis by blast
qed

text \<open>
  The scenario of the specification: anchor at offset 100, the key absent, the value
  \<^verbatim>\<open>True\<close> against the default \<^verbatim>\<open>False\<close>.
\<close>

theorem C2_insertion_length_and_place_witness:
  "\<not> sublist (ascii ''bUsingPhysicalGunstock'' @ [0]) (replicate 100 7 @ anchor_marker @ [9, 9]) \<and>
   DEFAULT_SETTINGS (py_str ''bUsingPhysicalGunstock'') = Some False \<and>
   py_ne (VBool True) False \<and>
   bytes_find (replicate 100 7 @ anchor_marker @ [9, 9]) anchor_marker = 100 \<and>
   (\<exists>sb. SettingBytes (py_str ''bUsingPhysicalGunstock'') (py_str ''BoolProperty'') (VBool True)
           = Inr sb \<and>
      locate_and_modify_player_settings (replicate 100 7 @ anchor_marker @ [9, 9])
        [(py_str ''bUsingPhysicalGunstock'', py_str ''BoolProperty'', VBool True)] =
      Inr (Some (replicate 100 7 @ anchor_marker @ sb_bytes sb @ [9, 9])))"
proof -
  let ?data = "replicate 100 7 @ anchor_marker @ [9, 9]"
  let ?key = "py_str ''bUsingPhysicalGunstock''"
  let ?req = "[(?key, py_str ''BoolProperty'', VBool True)]"
  have k: "encode_utf8 ?key = Inr (ascii ''bUsingPhysicalGunstock'')"
    by (rule encode_utf8_ascii) simp
  have s: "\<not> sublist (ascii ''bUsingPhysicalGunstock'' @ [0]) ?data" by code_simp
  have d: "DEFAULT_SETTINGS ?key = Some False" by code_simp
  have n: "py_ne (VBool True) False" by simp
  have f: "request_fault ?data ?req = None" by code_simp
  have b: "bytes_find ?data anchor_marker = int 100" by code_simp
  have e: "?req = [] @ (?key, py_str ''BoolProperty'', VBool True) # []" by simp
  have t: "take 100 ?data = replicate 100 7" by simp
  have r: "drop (100 + length anchor_marker) ?data = [9, 9]" by (simp add: length_anchor_marker)
  from C2_insertion_length_and_place [OF e k s d n f b]
  obtain sb out where
    "SettingBytes ?key (py_str ''BoolProperty'') (VBool True) = Inr sb"
    "locate_and_modify_player_settings ?data ?req = Inr (Some out)"
    "out = take 100 ?data @ anchor_marker @ sb_bytes sb @ drop (100 + length anchor_marker) ?data"
    by auto
  then have "SettingBytes ?key (py_str ''BoolProperty'') (VBool True) = Inr sb \<and>
    locate_and_modify_player_settings ?data ?req =
      Inr (Some (replicate 100 7 @ anchor_marker @ sb_bytes sb @ [9, 9]))"
    unfolding t r by simp
  then have "\<exists>sb. SettingBytes ?key (py_str ''BoolProperty'') (VBool True) = Inr sb \<and>
    locate_and_modify_player_settings ?data ?req =
      Inr (Some (replicate 100 7 @ anchor_marker @ sb_bytes sb @ [9, 9]))" ..
  with s d n b show ?thesis by simp
qed

text \<open>
  C2 as first stated fails when a call inserts two records: for the first setting of
  the request below the output is longer than the input plus its record, and the
  bytes at the insertion point are those of the other record.
\<close>

theorem C2_counterexample:
  "\<not> sublist (ascii ''bUsingPhysicalGunstock'' @ [0]) anchor_marker \<and>
   DEFAULT_SETTINGS (py_str ''bUsingPhysicalGunstock'') = Some False \<and>
   py_ne (VBool True) False \<and>
   bytes_find anchor_marker anchor_marker = 0 \<and>
   map_sum id sb_bytes
     (SettingBytes (py_str ''bUsingPhysicalGunstock'') (py_str ''BoolProperty'') (VBool True)) =
     Inr ([0x17, 0, 0, 0] @ ascii ''bUsingPhysicalGunstock'' @ [0] @
          [0x0d, 0, 0, 0] @ ascii ''BoolProperty'' @ [0] @ replicate 8 0 @ [1] @ [0]) \<and>
   locate_and_modify_player_settings anchor_marker
     [(py_str ''bUsingPhysicalGunstock'', py_str ''BoolProperty'', VBool True),
      (py_str ''bFullBodyIK'', py_str ''BoolProperty'', VBool False)] =
     Inr (Some (anchor_marker @
        ([0x0c, 0, 0, 0] @ ascii ''bFullBodyIK'' @ [0] @
           [0x0d, 0, 0, 0] @ ascii ''BoolProperty'' @ [0] @ replicate 8 0 @ [0] @ [0]) @
        ([0x17, 0, 0, 0] @ ascii ''bUsingPhysicalGunstock'' @ [0] @
           [0x0d, 0, 0, 0] @ ascii ''BoolProperty'' @ [0] @ replicate 8 0 @ [1] @ [0]))) \<and>
   length (anchor_marker @
        ([0x0c, 0, 0, 0] @ ascii ''bFullBodyIK'' @ [0] @
           [0x0d, 0, 0, 0] @ ascii ''BoolProperty'' @ [0] @ replicate 8 0 @ [0] @ [0]) @
        ([0x17, 0, 0, 0] @ ascii ''bUsingPhysicalGunstock'' @ [0] @
           [0x0d, 0, 0, 0] @ ascii ''BoolProperty'' @ [0] @ replicate 8 0 @ [1] @ [0]))
     \<noteq> length anchor_marker +
        length ([0x17, 0, 0, 0] @ ascii ''bUsingPhysicalGunstock'' @ [0] @
          [0x0d, 0, 0, 0] @ ascii ''BoolProperty'' @ [0] @ replicate 8 0 @ [1 :: byte] @ [0]) \<and>
   take 54 (drop (length anchor_marker) (anchor_marker @
        ([0x0c, 0, 0, 0] @ ascii ''bFullBodyIK'' @ [0] @
           [0x0d, 0, 0, 0] @ ascii ''BoolProperty'' @ [0] @ replicate 8 0 @ [0] @ [0]) @
        ([0x17, 0, 0, 0] @ ascii ''bUsingPhysicalGunstock'' @ [0] @
           [0x0d, 0, 0, 0] @ ascii ''BoolProperty'' @ [0] @ replicate 8 0 @ [1] @ [0])))
     \<noteq> [0x17, 0, 0, 0] @ ascii ''bUsingPhysicalGunstock'' @ [0] @
          [0x0d, 0, 0, 0] @ ascii ''BoolProperty'' @ [0] @ replicate 8 0 @ [1] @ [0]"
  by code_simp

subsection \<open>C3: a value equal to the default\<close>

text \<open>
  C3, amended. A requested setting whose key bytes are absent from the buffer and whose
  value equals its default never inserts, and when its record encodes the call gives
  the result it gives without that setting. When every requested setting passes the
  loop without raising and without inserting, \<^verbatim>\<open>None\<close> is returned; a call that
  returns after no insertion returns \<^verbatim>\<open>None\<close>; and no call ever returns a buffer
  equal to its input.
\<close>

theorem C3_default_value_no_insertion:
  "(\<forall>k d. encode_utf8 key = Inr k \<and> \<not> sublist (k @ [0]) data \<and>
       DEFAULT_SETTINGS key = Some d \<and> \<not> py_ne val d \<longrightarrow>
      (\<forall>bs. setting_step data (key, data_type, val) \<noteq> Inr (Some bs)) \<and>
      (\<forall>sb pre post. SettingBytes key data_type val = Inr sb \<longrightarrow>
         locate_and_modify_player_settings data (pre @ (key, data_type, val) # post) =
         locate_and_modify_player_settings data (pre @ post))) \<and>
   ((\<forall>item \<in> set settings. setting_step data item = Inr None) \<longrightarrow>
      locate_and_modify_player_settings data settings = Inr None) \<and>
   (\<forall>r. locate_and_modify_player_settings data settings = Inr r \<and>
      (\<forall>item \<in> set settings. \<forall>bs. setting_step data item \<noteq> Inr (Some bs)) \<longrightarrow> r = None) \<and>
   locate_and_modify_player_settings data settings \<noteq> Inr (Some data)"
proof (intro conjI impI allI)
  fix k d bs
  assume "encode_utf8 key = Inr k \<and> \<not> sublist (k @ [0]) data \<and>
       DEFAULT_SETTINGS key = Some d \<and> \<not> py_ne val d"
  then show "setting_step data (key, data_type, val) \<noteq> Inr (Some bs)"
    by (simp add: step_default split: sum.splits)
next
  fix k d sb pre post
  assume "encode_utf8 key = Inr k \<and> \<not> sublist (k @ [0]) data \<and>
       DEFAULT_SETTINGS key = Some d \<and> \<not> py_ne val d"
    and "SettingBytes key data_type val = Inr sb"
  then have "setting_step data (key, data_type, val) = Inr None"
    by (simp add: step_default)
  then show "locate_and_modify_player_settings data (pre @ (key, data_type, val) # post) =
         locate_and_modify_player_settings data (pre @ post)"
    by (rule skip_item)
next
  assume "\<forall>item \<in> set settings. setting_step data item = Inr None"
  then show "locate_and_modify_player_settings data settings = Inr None"
    by (rule all_noop_None)
next
  fix r
  assume "locate_and_modify_player_settings data settings = Inr r \<and>
      (\<forall>item \<in> set settings. \<forall>bs. setting_step data item \<noteq> Inr (Some bs))"
  then show "r = None"
    by (auto simp: locate_char inserted_records_Nil_iff split: option.splits if_splits)
next
  show "locate_and_modify_player_settings data settings \<noteq> Inr (Some data)"
    by (rule never_a_copy)
qed

text \<open>
  The scenario of the specification: the key absent, the value \<^verbatim>\<open>False\<close> equal to
  the default.
\<close>

theorem C3_default_value_no_insertion_witness:
  "\<not> sublist (ascii ''bUsingPhysicalGunstock'' @ [0]) ([7, 7, 7] @ anchor_marker @ [9, 9]) \<and>
   DEFAULT_SETTINGS (py_str ''bUsingPhysicalGunstock'') = Some False \<and>
   \<not> py_ne (VBool False) False \<and>
   locate_and_modify_player_settings ([7, 7, 7] @ anchor_marker @ [9, 9])
     [(py_str ''bUsingPhysicalGunstock'', py_str ''BoolProperty'', VBool False)] = Inr None"
proof -
  have k: "encode_utf8 (py_str ''bUsingPhysicalGunstock'') = Inr (ascii ''bUsingPhysicalGunstock'')"
    by (rule encode_utf8_ascii) simp
  have t: "encode_utf8 (py_str ''BoolProperty'') = Inr (ascii ''BoolProperty'')"
    by (rule encode_utf8_ascii) simp
  have s: "\<not> sublist (ascii ''bUsingPhysicalGunstock'' @ [0]) ([7, 7, 7] @ anchor_marker @ [9, 9])"
    by code_simp
  have d: "DEFAULT_SETTINGS (py_str ''bUsingPhysicalGunstock'') = Some False" by code_simp
  have n: "\<not> py_ne (VBool False) False" by simp
  obtain sb where sb:
    "SettingBytes (py_str ''bUsingPhysicalGunstock'') (py_str ''BoolProperty'') (VBool False) = Inr sb"
    using SettingBytes_ok [OF k t compute_value_bool [of False]] by (auto simp: ascii_def)
  note c = C3_default_value_no_insertion [of "py_str ''bUsingPhysicalGunstock''"
      "[7, 7, 7] @ anchor_marker @ [9, 9]" "VBool False" "py_str ''BoolProperty''" "[]"]
  from c k s d n sb
  have "locate_and_modify_player_settings ([7, 7, 7] @ anchor_marker @ [9, 9])
          ([] @ (py_str ''bUsingPhysicalGunstock'', py_str ''BoolProperty'', VBool False) # []) =
        locate_and_modify_player_settings ([7, 7, 7] @ anchor_marker @ [9, 9]) ([] @ [])"
    by blast
  moreover have "locate_and_modify_player_settings ([7, 7, 7] @ anchor_marker @ [9, 9]) [] = Inr None"
    using c by simp
  ultimately show ?thesis using s d n by simp
qed

text \<open>
  C3 as first stated fails when the call raises: with the key absent and the value
  \<^verbatim>\<open>1.0\<close>, which Python finds equal to the default \<^verbatim>\<open>True\<close>, no insertion takes
  place and the call ends in \<^verbatim>\<open>TypeError\<close> instead of returning \<^verbatim>\<open>None\<close>; so
  does, with \<^verbatim>\<open>KeyError\<close>, a request for a name the default table does not hold.
\<close>

theorem C3_counterexample:
  "\<not> sublist (ascii ''bFullBodyIK'' @ [0]) anchor_marker \<and>
   DEFAULT_SETTINGS (py_str ''bFullBodyIK'') = Some True \<and>
   \<not> py_ne (VFloat (Finite 1 0)) True \<and>
   inserted_records anchor_marker
     [(py_str ''bFullBodyIK'', py_str ''BoolProperty'', VFloat (Finite 1 0))] = [] \<and>
   locate_and_modify_player_settings anchor_marker
     [(py_str ''bFullBodyIK'', py_str ''BoolProperty'', VFloat (Finite 1 0))] = Inl TypeError \<and>
   DEFAULT_SETTINGS (py_str ''bSnapTurn'') = None \<and>
   inserted_records anchor_marker
     [(py_str ''bSnapTurn'', py_str ''BoolProperty'', VBool True)] = [] \<and>
   locate_and_modify_player_settings anchor_marker
     [(py_str ''bSnapTurn'', py_str ''BoolProperty'', VBool True)] = Inl KeyError"
  by code_simp

subsection \<open>C4: a key already present in the buffer\<close>

text \<open>
  C4, amended. A requested setting whose null-terminated key bytes occur in the buffer
  never inserts, whatever its value, and when its record encodes the call gives the
  result it gives without that setting. When every requested key is present and every
  requested record encodes, \<^verbatim>\<open>None\<close> is returned.
\<close>

theorem C4_present_key_untouched:
  "(\<forall>k. encode_utf8 key = Inr k \<and> sublist (k @ [0]) data \<longrightarrow>
      (\<forall>bs. setting_step data (key, data_type, val) \<noteq> Inr (Some bs)) \<and>
      (\<forall>sb pre post. SettingBytes key data_type val = Inr sb \<longrightarrow>
         locate_and_modify_player_settings data (pre @ (key, data_type, val) # post) =
         locate_and_modify_player_settings data (pre @ post))) \<and>
   ((\<forall>(key', data_type', val') \<in> set settings.
        \<exists>k sb. encode_utf8 key' = Inr k \<and> sublist (k @ [0]) data \<and>
          SettingBytes key' data_type' val' = Inr sb) \<longrightarrow>
      locate_and_modify_player_settings data settings = Inr None)"
proof (intro conjI impI allI)
  fix k bs
  assume "encode_utf8 key = Inr k \<and> sublist (k @ [0]) data"
  then show "setting_step data (key, data_type, val) \<noteq> Inr (Some bs)"
    by (simp add: step_present split: sum.splits)
next
  fix k sb pre post
  assume "encode_utf8 key = Inr k \<and> sublist (k @ [0]) data"
    and "SettingBytes key data_type val = Inr sb"
  then have "setting_step data (key, data_type, val) = Inr None"
    by (simp add: step_present)
  then show "locate_and_modify_player_settings data (pre @ (key, data_type, val) # post) =
         locate_and_modify_player_settings data (pre @ post)"
    by (rule skip_item)
next
  assume a: "\<forall>(key', data_type', val') \<in> set settings.
        \<exists>k sb. encode_utf8 key' = Inr k \<and> sublist (k @ [0]) data \<and>
          SettingBytes key' data_type' val' = Inr sb"
  have "\<forall>item \<in> set settings. setting_step data item = Inr None"
  proof
    fix item assume "item \<in> set settings"
    with a show "setting_step data item = Inr None"
      by (cases item) (auto simp: step_present)
  qed
  then show "locate_and_modify_player_settings data settings = Inr None"
    by (rule all_noop_None)
qed

text \<open>
  The scenario of the specification: \<^verbatim>\<open>bFullBodyIK\<close> present in the buffer.
\<close>

theorem C4_present_key_untouched_witness:
  "sublist (ascii ''bFullBodyIK'' @ [0]) (anchor_marker @ ascii ''bFullBodyIK'' @ [0]) \<and>
   locate_and_modify_player_settings (anchor_marker @ ascii ''bFullBodyIK'' @ [0])
     [(py_str ''bFullBodyIK'', py_str ''BoolProperty'', VBool False)] = Inr None"
proof -
  have k: "encode_utf8 (py_str ''bFullBodyIK'') = Inr (ascii ''bFullBodyIK'')"
    by (rule encode_utf8_ascii) simp
  have t: "encode_utf8 (py_str ''BoolProperty'') = Inr (ascii ''BoolProperty'')"
    by (rule encode_utf8_ascii) simp
  have s: "sublist (ascii ''bFullBodyIK'' @ [0]) (anchor_marker @ ascii ''bFullBodyIK'' @ [0])"
    by code_simp
  obtain sb where sb:
    "SettingBytes (py_str ''bFullBodyIK'') (py_str ''BoolProperty'') (VBool False) = Inr sb"
    using SettingBytes_ok [OF k t compute_value_bool [of False]] by (auto simp: ascii_def)
  have "locate_and_modify_player_settings (anchor_marker @ ascii ''bFullBodyIK'' @ [0])
     [(py_str ''bFullBodyIK'', py_str ''BoolProperty'', VBool False)] = Inr None"
    using C4_present_key_untouched [of "py_str ''bFullBodyIK''"
        "anchor_marker @ ascii ''bFullBodyIK'' @ [0]" "py_str ''BoolProperty''" "VBool False"
        "[(py_str ''bFullBodyIK'', py_str ''BoolProperty'', VBool False)]"] k s sb
    by simp
  with s show ?thesis by simp
qed

text \<open>
  C4 as first stated fails for a value the codec does not accept: the key is present,
  and the call raises \<^verbatim>\<open>TypeError\<close> instead of returning \<^verbatim>\<open>None\<close>.
\<close>

theorem C4_counterexample:
  "sublist (ascii ''bFullBodyIK'' @ [0]) (anchor_marker @ ascii ''bFullBodyIK'' @ [0]) \<and>
   locate_and_modify_player_settings (anchor_marker @ ascii ''bFullBodyIK'' @ [0])
     [(py_str ''bFullBodyIK'', py_str ''BoolProperty'', VNone)] = Inl TypeError"
  by code_simp

subsection \<open>C5: the value bytes\<close>

text \<open>
  C5, amended. A boolean gives the single byte 0 or 1; an integer from 0 to 255 gives
  the single byte of that value, and any other integer raises \<^verbatim>\<open>ValueError\<close>; a
  string gives exactly the bytes of its UTF-8 encoding, nothing added (for a string of
  ASCII characters, its characters as bytes); a byte sequence is passed through; every
  other shape raises \<^verbatim>\<open>TypeError\<close>, and a request that holds a setting of such a
  shape ends in an exception, with no buffer returned.
\<close>

theorem C5_value_encoding:
  "compute_value (VBool b) = Inr [if b then 1 else 0] \<and>
   compute_value (VInt i) = (if 0 \<le> i \<and> i < 256 then Inr [word_of_int i] else Inl ValueError) \<and>
   compute_value (VStr s) = encode_utf8 s \<and>
   (\<forall>w. (\<forall>c \<in> set w. of_char c < (128 :: nat)) \<longrightarrow>
      compute_value (VStr (py_str w)) = Inr (ascii w)) \<and>
   compute_value (VBytes bs) = Inr bs \<and>
   (\<not> supported_shape val \<longrightarrow>
      compute_value val = Inl TypeError \<and>
      (\<forall>(key :: str) (data_type :: str) settings data. (key, data_type, val) \<in> set settings \<longrightarrow>
         (\<exists>e. locate_and_modify_player_settings data settings = Inl e)))"
proof (intro conjI impI allI)
  show "compute_value (VBool b) = Inr [if b then 1 else 0]" by (rule compute_value_bool)
  show "compute_value (VInt i) = (if 0 \<le> i \<and> i < 256 then Inr [word_of_int i] else Inl ValueError)"
    by (rule compute_value_int)
  show "compute_value (VStr s) = encode_utf8 s" by simp
  show "compute_value (VBytes bs) = Inr bs" by simp
next
  fix w
  assume "\<forall>c \<in> set w. of_char c < (128 :: nat)"
  then show "compute_value (VStr (py_str w)) = Inr (ascii w)"
    by (simp add: encode_utf8_ascii)
next
  assume "\<not> supported_shape val"
  then show "compute_value val = Inl TypeError" by (rule compute_value_unsupported)
next
  fix key data_type :: str and settings data
  assume u: "\<not> supported_shape val" and m: "(key, data_type, val) \<in> set settings"
  from unsupported_step_faults [OF u] obtain e
    where "setting_step data (key, data_type, val) = Inl e" by blast
  from item_fault_in_request [OF m this] obtain e'
    where "request_fault data settings = Some e'" by blast
  then have "locate_and_modify_player_settings data settings = Inl e'"
    by (rule request_fault_locate)
  then show "\<exists>e. locate_and_modify_player_settings data settings = Inl e" by blast
qed

theorem C5_value_encoding_witness:
  "compute_value (VBool True) = Inr [1] \<and>
   compute_value (VInt 7) = Inr [7] \<and>
   compute_value (VStr (py_str ''on'')) = Inr (ascii ''on'') \<and>
   compute_value (VBytes [1, 2]) = Inr [1, 2] \<and>
   \<not> supported_shape VNone \<and>
   compute_value VNone = Inl TypeError \<and>
   (\<exists>e. locate_and_modify_player_settings anchor_marker
          [(py_str ''bFullBodyIK'', py_str ''BoolProperty'', VBool False),
           (py_str ''bUsingPhysicalGunstock'', py_str ''BoolProperty'', VNone)] = Inl e)"
proof -
  have e: "encode_utf8 (py_str ''on'') = Inr (ascii ''on'')"
    by (rule encode_utf8_ascii) simp
  have m: "(py_str ''bUsingPhysicalGunstock'', py_str ''BoolProperty'', VNone) \<in>
        set [(py_str ''bFullBodyIK'', py_str ''BoolProperty'', VBool False),
             (py_str ''bUsingPhysicalGunstock'', py_str ''BoolProperty'', VNone)]" by simp
  have u: "\<not> supported_shape VNone" by simp
  from C5_value_encoding [of True 7 "py_str ''on''" "[1, 2]" VNone] e m u
  show ?thesis by fastforce
qed

text \<open>
  C5 as first stated fails for the integers that are not a byte: no byte is emitted
  for 256 or for -1.
\<close>

theorem C5_counterexample:
  "compute_value (VInt 256) = Inl ValueError \<and> compute_value (VInt (- 1)) = Inl ValueError"
  by (simp add: bytes_of_ints_def)

subsection \<open>C6: the anchor is absent\<close>

text \<open>
  C6, amended. When the anchor does not occur in the buffer, the search returns -1 and
  the insertion index is -1 plus the length of the anchor, that is 24. The missing
  anchor raises nothing: the call fails exactly where a requested setting raises, with
  that exception. Otherwise every insertion is the slice assignment at index 24 of
  the buffer as it then stands: on a buffer of at least 24 bytes the records stand at
  offset 24, in reverse request order; on a shorter buffer Python takes the end of the
  buffer for an index beyond it, so a single record is appended to the input.
\<close>

theorem C6_anchor_absent:
  assumes "\<not> sublist anchor_marker data"
  shows "insertion_point data = - 1 + int (length anchor_marker) \<and>
         insertion_point data = 24 \<and>
         locate_and_modify_player_settings data settings =
           (case request_fault data settings of
              Some e \<Rightarrow> Inl e
            | None \<Rightarrow>
                if inserted_records data settings = [] then Inr None
                else Inr (Some (foldl (\<lambda>m r. take 24 m @ r @ drop 24 m) data
                                 (inserted_records data settings)))) \<and>
         (request_fault data settings = None \<longrightarrow>
            \<not> isl (locate_and_modify_player_settings data settings)) \<and>
         (24 \<le> length data \<and> request_fault data settings = None \<and>
            inserted_records data settings \<noteq> [] \<longrightarrow>
            locate_and_modify_player_settings data settings =
              Inr (Some (take 24 data @ concat (rev (inserted_records data settings))
                         @ drop 24 data))) \<and>
         (\<forall>r. length data < 24 \<and> request_fault data settings = None \<and>
            inserted_records data settings = [r] \<longrightarrow>
            locate_and_modify_player_settings data settings = Inr (Some (data @ r)))"
proof -
  from assms have i: "insertion_point data = 24" by (rule anchor_absent_index)
  have l: "locate_and_modify_player_settings data settings =
           (case request_fault data settings of
              Some e \<Rightarrow> Inl e
            | None \<Rightarrow>
                if inserted_records data settings = [] then Inr None
                else Inr (Some (foldl (\<lambda>m r. take 24 m @ r @ drop 24 m) data
                                 (inserted_records data settings))))"
  proof -
    have "(\<lambda>m r. slice_insert m (insertion_point data) r) = (\<lambda>m r. take 24 m @ r @ drop 24 m)"
      by (intro ext) (simp add: i slice_insert_24)
    then show ?thesis by (simp only: locate_char)
  qed
  have "locate_and_modify_player_settings data settings =
              Inr (Some (take 24 data @ concat (rev (inserted_records data settings))
                         @ drop 24 data))"
    if "24 \<le> length data" "request_fault data settings = None"
      "inserted_records data settings \<noteq> []"
    using that foldl_slice_insert [of 24 data "inserted_records data settings"]
    by (simp add: locate_char i)
  moreover have "locate_and_modify_player_settings data settings = Inr (Some (data @ r))"
    if "length data < 24" "request_fault data settings = None"
      "inserted_records data settings = [r]" for r
    using that by (simp add: l)
  moreover have "\<not> isl (locate_and_modify_player_settings data settings)"
    if "request_fault data settings = None"
    using that by (simp add: l)
  ultimately show ?thesis using i l by (simp add: length_anchor_marker)
qed

text \<open>
  A buffer of 30 bytes without the anchor, and the empty buffer.
\<close>

theorem C6_anchor_absent_witness:
  "\<not> sublist anchor_marker (replicate 30 7) \<and>
   insertion_point (replicate 30 7) = 24 \<and>
   locate_and_modify_player_settings (replicate 30 7)
     [(py_str ''bUsingPhysicalGunstock'', py_str ''BoolProperty'', VBool True)] =
   Inr (Some (replicate 24 7 @
        ([0x17, 0, 0, 0] @ ascii ''bUsingPhysicalGunstock'' @ [0] @
         [0x0d, 0, 0, 0] @ ascii ''BoolProperty'' @ [0] @ replicate 8 0 @ [1] @ [0]) @
        replicate 6 7)) \<and>
   \<not> sublist anchor_marker [] \<and>
   insertion_point [] = 24 \<and>
   locate_and_modify_player_settings []
     [(py_str ''bUsingPhysicalGunstock'', py_str ''BoolProperty'', VBool True)] =
   Inr (Some ([0x17, 0, 0, 0] @ ascii ''bUsingPhysicalGunstock'' @ [0] @
         [0x0d, 0, 0, 0] @ ascii ''BoolProperty'' @ [0] @ replicate 8 0 @ [1] @ [0]))"
proof -
  let ?req = "[(py_str ''bUsingPhysicalGunstock'', py_str ''BoolProperty'', VBool True)]"
  let ?rec = "[0x17, 0, 0, 0] @ ascii ''bUsingPhysicalGunstock'' @ [0] @
         [0x0d, 0, 0, 0] @ ascii ''BoolProperty'' @ [0] @ replicate 8 0 @ [1] @ [0 :: byte]"
  have s: "\<not> sublist anchor_marker (replicate 30 7)" by code_simp
  have f: "request_fault (replicate 30 7) ?req = None" by code_simp
  have r: "inserted_records (replicate 30 7) ?req = [?rec]" by code_simp
  have t: "take 24 (replicate 30 7 :: bytes) = replicate 24 7"
    and d: "drop 24 (replicate 30 7 :: bytes) = replicate 6 7" by simp_all
  have s0: "\<not> sublist anchor_marker []" by code_simp
  have f0: "request_fault [] ?req = None" by code_simp
  have r0: "inserted_records [] ?req = [?rec]" by code_simp
  have long: "insertion_point (replicate 30 7) = 24 \<and>
    locate_and_modify_player_settings (replicate 30 7) ?req =
      Inr (Some (replicate 24 7 @ ?rec @ replicate 6 7))"
    using C6_anchor_absent [OF s, of ?req] f r t d by simp
  have short: "insertion_point [] = 24 \<and>
    locate_and_modify_player_settings [] ?req = Inr (Some ?rec)"
    using C6_anchor_absent [OF s0, of ?req] f0 r0 by simp
  from long short s s0 show ?thesis by simp
qed

text \<open>
  C6 as first stated fails on a buffer shorter than 24 bytes: on a buffer of 10 bytes
  without the anchor the record is appended at offset 10, and the bytes from offset
  24 on are not the record. It also fails where a requested setting raises: the same
  buffer with the value \<^verbatim>\<open>None\<close> ends in \<^verbatim>\<open>TypeError\<close>.
\<close>

theorem C6_counterexample:
  "\<not> sublist anchor_marker (replicate 10 7) \<and>
   insertion_point (replicate 10 7) = 24 \<and>
   locate_and_modify_player_settings (replicate 10 7)
     [(py_str ''bUsingPhysicalGunstock'', py_str ''BoolProperty'', VBool True)] =
   Inr (Some (replicate 10 7 @
        ([0x17, 0, 0, 0] @ ascii ''bUsingPhysicalGunstock'' @ [0] @
         [0x0d, 0, 0, 0] @ ascii ''BoolProperty'' @ [0] @ replicate 8 0 @ [1] @ [0]))) \<and>
   take 54 (drop 24 (replicate 10 7 @
        ([0x17, 0, 0, 0] @ ascii ''bUsingPhysicalGunstock'' @ [0] @
         [0x0d, 0, 0, 0] @ ascii ''BoolProperty'' @ [0] @ replicate 8 0 @ [1] @ [0])))
     \<noteq> [0x17, 0, 0, 0] @ ascii ''bUsingPhysicalGunstock'' @ [0] @
         [0x0d, 0, 0, 0] @ ascii ''BoolProperty'' @ [0] @ replicate 8 0 @ [1] @ [0] \<and>
   take 54 (drop 10 (replicate 10 7 @
        ([0x17, 0, 0, 0] @ ascii ''bUsingPhysicalGunstock'' @ [0] @
         [0x0d, 0, 0, 0] @ ascii ''BoolProperty'' @ [0] @ replicate 8 0 @ [1] @ [0])))
     = [0x17, 0, 0, 0] @ ascii ''bUsingPhysicalGunstock'' @ [0] @
         [0x0d, 0, 0, 0] @ ascii ''BoolProperty'' @ [0] @ replicate 8 0 @ [1] @ [0] \<and>
   locate_and_modify_player_settings (replicate 10 7)
     [(py_str ''bUsingPhysicalGunstock'', py_str ''BoolProperty'', VNone)] = Inl TypeError"
  by code_simp

subsection \<open>C7: several insertions in one call\<close>

text \<open>
  C7. When the anchor occurs in the buffer, no requested setting raises and the call
  inserts two or more records, the output is the input up to and including the first
  occurrence of the anchor, then the inserted records in the reverse of the request
  order, then the rest of the input. In particular, for a request of two settings that
  both insert, the record of the second stands directly after the anchor, followed by
  the record of the first.
\<close>

theorem C7_reverse_order:
  assumes "bytes_find data anchor_marker = int p"
  shows "(request_fault data settings = None \<and> 2 \<le> length (inserted_records data settings) \<longrightarrow>
            locate_and_modify_player_settings data settings =
              Inr (Some (take p data @ anchor_marker @
                         concat (rev (inserted_records data settings)) @
                         drop (p + length anchor_marker) data))) \<and>
         (\<forall>item1 item2 r1 r2.
            setting_step data item1 = Inr (Some r1) \<and> setting_step data item2 = Inr (Some r2) \<longrightarrow>
            locate_and_modify_player_settings data [item1, item2] =
              Inr (Some (take p data @ anchor_marker @ r2 @ r1 @
                         drop (p + length anchor_marker) data)))"
proof (intro conjI impI allI)
  assume a: "request_fault data settings = None \<and> 2 \<le> length (inserted_records data settings)"
  then have "inserted_records data settings \<noteq> []" by auto
  with a show "locate_and_modify_player_settings data settings =
              Inr (Some (take p data @ anchor_marker @
                         concat (rev (inserted_records data settings)) @
                         drop (p + length anchor_marker) data))"
    using locate_anchor_found [OF assms] by blast
next
  fix item1 item2 r1 r2
  assume a: "setting_step data item1 = Inr (Some r1) \<and> setting_step data item2 = Inr (Some r2)"
  then have f: "request_fault data [item1, item2] = None"
    and i: "inserted_records data [item1, item2] = [r1, r2]" by simp_all
  from locate_anchor_found [OF assms f] i
  show "locate_and_modify_player_settings data [item1, item2] =
              Inr (Some (take p data @ anchor_marker @ r2 @ r1 @
                         drop (p + length anchor_marker) data))"
    by simp
qed

theorem C7_reverse_order_witness:
  "bytes_find ([7, 7, 7] @ anchor_marker @ [9, 9]) anchor_marker = 3 \<and>
   inserted_records ([7, 7, 7] @ anchor_marker @ [9, 9])
     [(py_str ''bUsingPhysicalGunstock'', py_str ''BoolProperty'', VBool True),
      (py_str ''bFullBodyIK'', py_str ''BoolProperty'', VBool False)] =
     [[0x17, 0, 0, 0] @ ascii ''bUsingPhysicalGunstock'' @ [0] @
        [0x0d, 0, 0, 0] @ ascii ''BoolProperty'' @ [0] @ replicate 8 0 @ [1] @ [0],
      [0x0c, 0, 0, 0] @ ascii ''bFullBodyIK'' @ [0] @
        [0x0d, 0, 0, 0] @ ascii ''BoolProperty'' @ [0] @ replicate 8 0 @ [0] @ [0]] \<and>
   locate_and_modify_player_settings ([7, 7, 7] @ anchor_marker @ [9, 9])
     [(py_str ''bUsingPhysicalGunstock'', py_str ''BoolProperty'', VBool True),
      (py_str ''bFullBodyIK'', py_str ''BoolProperty'', VBool False)] =
   Inr (Some ([7, 7, 7] @ anchor_marker @
        ([0x0c, 0, 0, 0] @ ascii ''bFullBodyIK'' @ [0] @
           [0x0d, 0, 0, 0] @ ascii ''BoolProperty'' @ [0] @ replicate 8 0 @ [0] @ [0]) @
        ([0x17, 0, 0, 0] @ ascii ''bUsingPhysicalGunstock'' @ [0] @
           [0x0d, 0, 0, 0] @ ascii ''BoolProperty'' @ [0] @ replicate 8 0 @ [1] @ [0]) @
        [9, 9]))"
proof -
  let ?data = "[7, 7, 7] @ anchor_marker @ [9, 9]"
  let ?req = "[(py_str ''bUsingPhysicalGunstock'', py_str ''BoolProperty'', VBool True),
      (py_str ''bFullBodyIK'', py_str ''BoolProperty'', VBool False)]"
  have b: "bytes_find ?data anchor_marker = int 3" by code_simp
  have f: "request_fault ?data ?req = None" by code_simp
  have r: "inserted_records ?data ?req =
     [[0x17, 0, 0, 0] @ ascii ''bUsingPhysicalGunstock'' @ [0] @
        [0x0d, 0, 0, 0] @ ascii ''BoolProperty'' @ [0] @ replicate 8 0 @ [1] @ [0],
      [0x0c, 0, 0, 0] @ ascii ''bFullBodyIK'' @ [0] @
        [0x0d, 0, 0, 0] @ ascii ''BoolProperty'' @ [0] @ replicate 8 0 @ [0] @ [0]]"
    by code_simp
  have t: "take 3 ?data = [7, 7, 7]" by simp
  have d: "drop (3 + length anchor_marker) ?data = [9, 9]" by (simp add: length_anchor_marker)
  have n: "2 \<le> length (inserted_records ?data ?req)" unfolding r by simp
  from C7_reverse_order [OF b, of ?req] f n
  have "locate_and_modify_player_settings ?data ?req =
     Inr (Some (take 3 ?data @ anchor_marker @ concat (rev (inserted_records ?data ?req)) @
          drop (3 + length anchor_marker) ?data))"
    by blast
  then have "locate_and_modify_player_settings ?data ?req =
     Inr (Some ([7, 7, 7] @ anchor_marker @
        concat (rev [[0x17, 0, 0, 0] @ ascii ''bUsingPhysicalGunstock'' @ [0] @
          [0x0d, 0, 0, 0] @ ascii ''BoolProperty'' @ [0] @ replicate 8 0 @ [1] @ [0],
        [0x0c, 0, 0, 0] @ ascii ''bFullBodyIK'' @ [0] @
          [0x0d, 0, 0, 0] @ ascii ''BoolProperty'' @ [0] @ replicate 8 0 @ [0] @ [0]]) @ [9, 9]))"
    unfolding t d r .
  then have "locate_and_modify_player_settings ?data ?req =
   Inr (Some ([7, 7, 7] @ anchor_marker @
        ([0x0c, 0, 0, 0] @ ascii ''bFullBodyIK'' @ [0] @
           [0x0d, 0, 0, 0] @ ascii ''BoolProperty'' @ [0] @ replicate 8 0 @ [0] @ [0]) @
        ([0x17, 0, 0, 0] @ ascii ''bUsingPhysicalGunstock'' @ [0] @
           [0x0d, 0, 0, 0] @ ascii ''BoolProperty'' @ [0] @ replicate 8 0 @ [1] @ [0]) @
        [9, 9]))"
    by simp
  with b r show ?thesis by (intro conjI) simp_all
qed

subsection \<open>C8: lengths and values that do not fit a byte\<close>

text \<open>
  C8, amended. For a key or a type tag whose encoded length, with the null terminator,
  is 256 or more, the codec raises \<^verbatim>\<open>ValueError\<close> when it builds the length header
  (\<^verbatim>\<open>bytes([n, 0, 0, 0])\<close> takes only numbers from 0 to 255): no record is produced.
  An integer value of 256 or more raises \<^verbatim>\<open>ValueError\<close> in the same way.
\<close>

theorem C8_oversize_raises:
  "(encode_utf8 key = Inr k \<and> encode_utf8 data_type = Inr t \<and>
      (256 \<le> length k + 1 \<or> 256 \<le> length t + 1) \<longrightarrow>
      SettingBytes key data_type val = Inl ValueError) \<and>
   (256 \<le> i \<longrightarrow>
      compute_value (VInt i) = Inl ValueError \<and>
      (encode_utf8 key = Inr k \<and> encode_utf8 data_type = Inr t \<longrightarrow>
         SettingBytes key data_type (VInt i) = Inl ValueError))"
  by (simp add: SettingBytes_char bytes_of_ints_def)

theorem C8_oversize_raises_witness:
  "encode_utf8 (py_str (replicate 300 CHR ''k'')) = Inr (ascii (replicate 300 CHR ''k'')) \<and>
   encode_utf8 (py_str ''BoolProperty'') = Inr (ascii ''BoolProperty'') \<and>
   SettingBytes (py_str (replicate 300 CHR ''k'')) (py_str ''BoolProperty'') (VBool True)
     = Inl ValueError \<and>
   compute_value (VInt 1000) = Inl ValueError \<and>
   SettingBytes (py_str (replicate 300 CHR ''k'')) (py_str ''BoolProperty'') (VInt 1000)
     = Inl ValueError"
proof -
  have k: "encode_utf8 (py_str (replicate 300 CHR ''k'')) = Inr (ascii (replicate 300 CHR ''k''))"
    by (rule encode_utf8_ascii) simp
  have t: "encode_utf8 (py_str ''BoolProperty'') = Inr (ascii ''BoolProperty'')"
    by (rule encode_utf8_ascii) simp
  have l: "256 \<le> length (ascii (replicate 300 CHR ''k'')) + 1" by (simp add: ascii_def)
  show ?thesis
    using C8_oversize_raises [of "py_str (replicate 300 CHR ''k'')" "ascii (replicate 300 CHR ''k'')"
        "py_str ''BoolProperty''" "ascii ''BoolProperty''" "VBool True" 1000]
      C8_oversize_raises [of "py_str (replicate 300 CHR ''k'')" "ascii (replicate 300 CHR ''k'')"
        "py_str ''BoolProperty''" "ascii ''BoolProperty''" "VInt 1000" 1000]
      k t l by simp
qed

text \<open>
  C8 as first stated fails: a key of 255 characters, 256 bytes with its terminator,
  and the integer value 256 each make the codec raise.
\<close>

theorem C8_counterexample:
  "encode_utf8 (py_str (replicate 255 CHR ''k'')) = Inr (ascii (replicate 255 CHR ''k'')) \<and>
   length (ascii (replicate 255 CHR ''k'') @ [0]) = 256 \<and>
   SettingBytes (py_str (replicate 255 CHR ''k'')) (py_str ''BoolProperty'') (VBool True)
     = Inl ValueError \<and>
   SettingBytes (py_str ''bFullBodyIK'') (py_str ''BoolProperty'') (VInt 256) = Inl ValueError"
proof -
  have k: "encode_utf8 (py_str (replicate 255 CHR ''k'')) = Inr (ascii (replicate 255 CHR ''k''))"
    by (rule encode_utf8_ascii) simp
  have t: "encode_utf8 (py_str ''BoolProperty'') = Inr (ascii ''BoolProperty'')"
    by (rule encode_utf8_ascii) simp
  have f: "encode_utf8 (py_str ''bFullBodyIK'') = Inr (ascii ''bFullBodyIK'')"
    by (rule encode_utf8_ascii) simp
  show ?thesis
    by (simp add: SettingBytes_char k t f bytes_of_ints_def) (simp add: ascii_def)
qed

subsection \<open>C9: the record is built before the branching\<close>

text \<open>
  C9. The loop body builds the record before it looks at the search result, so a failure
  of the codec is a failure of the loop body whether the key is present or not and
  whatever the default. A request that holds a setting of an unsupported value shape
  ends in an exception; when that setting is reached and its key and type tag encode,
  the exception is \<^verbatim>\<open>TypeError\<close>.
\<close>

theorem C9_encoded_before_branching:
  "(\<forall>k e. encode_utf8 key = Inr k \<and> SettingBytes key data_type val = Inl e \<longrightarrow>
      setting_step data (key, data_type, val) = Inl e) \<and>
   (\<not> supported_shape val \<and> (key, data_type, val) \<in> set settings \<longrightarrow>
      (\<exists>e. locate_and_modify_player_settings data settings = Inl e)) \<and>
   (\<forall>k t. \<not> supported_shape val \<and> encode_utf8 key = Inr k \<and> encode_utf8 data_type = Inr t \<and>
      length k + 1 < 256 \<and> length t + 1 < 256 \<longrightarrow>
      (\<forall>pre post. request_fault data pre = None \<longrightarrow>
         locate_and_modify_player_settings data (pre @ (key, data_type, val) # post)
           = Inl TypeError))"
proof (intro conjI impI allI)
  fix k e
  assume "encode_utf8 key = Inr k \<and> SettingBytes key data_type val = Inl e"
  then show "setting_step data (key, data_type, val) = Inl e"
    by (simp add: setting_step_char)
next
  assume a: "\<not> supported_shape val \<and> (key, data_type, val) \<in> set settings"
  then obtain e where "setting_step data (key, data_type, val) = Inl e"
    using unsupported_step_faults by blast
  with a obtain e' where "request_fault data settings = Some e'"
    using item_fault_in_request by blast
  then have "locate_and_modify_player_settings data settings = Inl e'"
    by (rule request_fault_locate)
  then show "\<exists>e. locate_and_modify_player_settings data settings = Inl e" by blast
next
  fix k t pre post
  assume a: "\<not> supported_shape val \<and> encode_utf8 key = Inr k \<and> encode_utf8 data_type = Inr t \<and>
      length k + 1 < 256 \<and> length t + 1 < 256"
    and p: "request_fault data pre = None"
  from a have "SettingBytes key data_type val = Inl TypeError"
    by (simp add: SettingBytes_char compute_value_unsupported)
  with a have "setting_step data (key, data_type, val) = Inl TypeError"
    by (simp add: setting_step_char)
  with p have "request_fault data (pre @ (key, data_type, val) # post) = Some TypeError"
    by (simp add: request_fault_append)
  then show "locate_and_modify_player_settings data (pre @ (key, data_type, val) # post)
           = Inl TypeError"
    by (rule request_fault_locate)
qed

text \<open>
  Two settings that would need no insertion: one whose key is present in the buffer,
  one whose value \<^verbatim>\<open>1.0\<close> equals the default.
\<close>

theorem C9_encoded_before_branching_witness:
  "sublist (ascii ''bFullBodyIK'' @ [0]) (anchor_marker @ ascii ''bFullBodyIK'' @ [0]) \<and>
   locate_and_modify_player_settings (anchor_marker @ ascii ''bFullBodyIK'' @ [0])
     [(py_str ''bFullBodyIK'', py_str ''BoolProperty'', VNone)] = Inl TypeError \<and>
   \<not> sublist (ascii ''bHoldCrouchToOpenMenu'' @ [0]) anchor_marker \<and>
   DEFAULT_SETTINGS (py_str ''bHoldCrouchToOpenMenu'') = Some True \<and>
   \<not> py_ne (VFloat (Finite 1 0)) True \<and>
   locate_and_modify_player_settings anchor_marker
     [(py_str ''bHoldCrouchToOpenMenu'', py_str ''BoolProperty'', VFloat (Finite 1 0))]
     = Inl TypeError"
proof -
  have k1: "encode_utf8 (py_str ''bFullBodyIK'') = Inr (ascii ''bFullBodyIK'')"
    by (rule encode_utf8_ascii) simp
  have k2: "encode_utf8 (py_str ''bHoldCrouchToOpenMenu'') = Inr (ascii ''bHoldCrouchToOpenMenu'')"
    by (rule encode_utf8_ascii) simp
  have t: "encode_utf8 (py_str ''BoolProperty'') = Inr (ascii ''BoolProperty'')"
    by (rule encode_utf8_ascii) simp
  have l: "length (ascii ''bFullBodyIK'') + 1 < 256"
    "length (ascii ''bHoldCrouchToOpenMenu'') + 1 < 256"
    "length (ascii ''BoolProperty'') + 1 < 256"
    by (simp_all add: ascii_def)
  have s1: "sublist (ascii ''bFullBodyIK'' @ [0]) (anchor_marker @ ascii ''bFullBodyIK'' @ [0])"
    by code_simp
  have s2: "\<not> sublist (ascii ''bHoldCrouchToOpenMenu'' @ [0]) anchor_marker" by code_simp
  have d: "DEFAULT_SETTINGS (py_str ''bHoldCrouchToOpenMenu'') = Some True" by code_simp
  have n: "\<not> py_ne (VFloat (Finite 1 0)) True" by simp
  have u: "\<not> supported_shape VNone" "\<not> supported_shape (VFloat (Finite 1 0))" by simp_all
  have e: "request_fault data [] = None" for data by simp
  have "locate_and_modify_player_settings (anchor_marker @ ascii ''bFullBodyIK'' @ [0])
     ([] @ (py_str ''bFullBodyIK'', py_str ''BoolProperty'', VNone) # []) = Inl TypeError"
    using C9_encoded_before_branching [of "py_str ''bFullBodyIK''" "py_str ''BoolProperty''" VNone
        "anchor_marker @ ascii ''bFullBodyIK'' @ [0]" "[]"] k1 t l u e
    by blast
  moreover have "locate_and_modify_player_settings anchor_marker
     ([] @ (py_str ''bHoldCrouchToOpenMenu'', py_str ''BoolProperty'', VFloat (Finite 1 0)) # [])
     = Inl TypeError"
    using C9_encoded_before_branching [of "py_str ''bHoldCrouchToOpenMenu''" "py_str ''BoolProperty''"
        "VFloat (Finite 1 0)" anchor_marker "[]"] k2 t l u e
    by blast
  ultimately show ?thesis using s1 s2 d n by simp
qed

subsection \<open>C10: a name the default table does not hold\<close>

text \<open>
  C10, amended. The loop body raises \<^verbatim>\<open>KeyError\<close> exactly for a setting whose name
  is not in the default table, whose key bytes are absent from the buffer and whose
  record encodes; for a setting whose key bytes are present it never raises
  \<^verbatim>\<open>KeyError\<close>, and a call that ends in \<^verbatim>\<open>KeyError\<close> holds a setting with an
  unknown name and absent key bytes. A setting with an unknown name whose key bytes are
  present and whose record encodes passes the loop without an effect: alone it makes
  the call return \<^verbatim>\<open>None\<close>, and within a request the call gives the result it gives
  without it.
\<close>

theorem C10_unknown_name:
  "((setting_step data (key, data_type, val) = Inl KeyError) =
      (DEFAULT_SETTINGS key = None \<and>
       (\<exists>k sb. encode_utf8 key = Inr k \<and> \<not> sublist (k @ [0]) data \<and>
          SettingBytes key data_type val = Inr sb))) \<and>
   (\<forall>k. encode_utf8 key = Inr k \<and> sublist (k @ [0]) data \<longrightarrow>
      setting_step data (key, data_type, val) \<noteq> Inl KeyError) \<and>
   (locate_and_modify_player_settings data settings = Inl KeyError \<longrightarrow>
      (\<exists>(key', data_type', val') \<in> set settings.
          DEFAULT_SETTINGS key' = None \<and>
          (\<exists>k. encode_utf8 key' = Inr k \<and> \<not> sublist (k @ [0]) data))) \<and>
   (\<forall>k sb. DEFAULT_SETTINGS key = None \<and> encode_utf8 key = Inr k \<and>
       sublist (k @ [0]) data \<and> SettingBytes key data_type val = Inr sb \<longrightarrow>
       setting_step data (key, data_type, val) = Inr None \<and>
       locate_and_modify_player_settings data [(key, data_type, val)] = Inr None \<and>
       (\<forall>pre post. locate_and_modify_player_settings data (pre @ (key, data_type, val) # post) =
          locate_and_modify_player_settings data (pre @ post)))"
proof (intro conjI impI allI)
  show "(setting_step data (key, data_type, val) = Inl KeyError) =
      (DEFAULT_SETTINGS key = None \<and>
       (\<exists>k sb. encode_utf8 key = Inr k \<and> \<not> sublist (k @ [0]) data \<and>
          SettingBytes key data_type val = Inr sb))"
    by (rule step_KeyError_iff)
next
  fix k
  assume "encode_utf8 key = Inr k \<and> sublist (k @ [0]) data"
  then show "setting_step data (key, data_type, val) \<noteq> Inl KeyError"
    by (simp add: step_KeyError_iff)
next
  assume "locate_and_modify_player_settings data settings = Inl KeyError"
  then have "request_fault data settings = Some KeyError" by (rule locate_Inl_fault)
  from request_fault_item [OF this] obtain item
    where item: "item \<in> set settings" "setting_step data item = Inl KeyError" by blast
  obtain key' data_type' val' where i: "item = (key', data_type', val')" by (cases item) auto
  with item(2) have "DEFAULT_SETTINGS key' = None \<and>
          (\<exists>k. encode_utf8 key' = Inr k \<and> \<not> sublist (k @ [0]) data)"
    by (auto simp: step_KeyError_iff)
  with item(1) i
  show "\<exists>(key', data_type', val') \<in> set settings.
          DEFAULT_SETTINGS key' = None \<and>
          (\<exists>k. encode_utf8 key' = Inr k \<and> \<not> sublist (k @ [0]) data)"
    by blast
next
  fix k sb
  assume a: "DEFAULT_SETTINGS key = None \<and> encode_utf8 key = Inr k \<and>
       sublist (k @ [0]) data \<and> SettingBytes key data_type val = Inr sb"
  then have st: "setting_step data (key, data_type, val) = Inr None"
    by (simp add: step_present)
  then show "setting_step data (key, data_type, val) = Inr None" .
  from st show "locate_and_modify_player_settings data [(key, data_type, val)] = Inr None"
    by (simp add: all_noop_None)
  fix pre post
  from st show "locate_and_modify_player_settings data (pre @ (key, data_type, val) # post) =
          locate_and_modify_player_settings data (pre @ post)"
    by (rule skip_item)
qed

theorem C10_unknown_name_witness:
  "DEFAULT_SETTINGS (py_str ''bSnapTurn'') = None \<and>
   \<not> sublist (ascii ''bSnapTurn'' @ [0]) anchor_marker \<and>
   locate_and_modify_player_settings anchor_marker
     [(py_str ''bSnapTurn'', py_str ''BoolProperty'', VBool True)] = Inl KeyError \<and>
   sublist (ascii ''bSnapTurn'' @ [0]) (anchor_marker @ ascii ''bSnapTurn'' @ [0]) \<and>
   locate_and_modify_player_settings (anchor_marker @ ascii ''bSnapTurn'' @ [0])
     [(py_str ''bSnapTurn'', py_str ''BoolProperty'', VBool True)] = Inr None"
proof -
  have k: "encode_utf8 (py_str ''bSnapTurn'') = Inr (ascii ''bSnapTurn'')"
    by (rule encode_utf8_ascii) simp
  have t: "encode_utf8 (py_str ''BoolProperty'') = Inr (ascii ''BoolProperty'')"
    by (rule encode_utf8_ascii) simp
  have d: "DEFAULT_SETTINGS (py_str ''bSnapTurn'') = None" by code_simp
  have s1: "\<not> sublist (ascii ''bSnapTurn'' @ [0]) anchor_marker" by code_simp
  have s2: "sublist (ascii ''bSnapTurn'' @ [0]) (anchor_marker @ ascii ''bSnapTurn'' @ [0])"
    by code_simp
  obtain sb where sb: "SettingBytes (py_str ''bSnapTurn'') (py_str ''BoolProperty'') (VBool True) = Inr sb"
    using SettingBytes_ok [OF k t compute_value_bool [of True]] by (auto simp: ascii_def)
  note c = C10_unknown_name [of _ "py_str ''bSnapTurn''" "py_str ''BoolProperty''" "VBool True"]
  have st: "setting_step anchor_marker (py_str ''bSnapTurn'', py_str ''BoolProperty'', VBool True) = Inl KeyError"
    using c [of anchor_marker] d k s1 sb by blast
  have "locate_and_modify_player_settings anchor_marker
     [(py_str ''bSnapTurn'', py_str ''BoolProperty'', VBool True)] = Inl KeyError"
    using st by (simp add: locate_char)
  moreover have "locate_and_modify_player_settings (anchor_marker @ ascii ''bSnapTurn'' @ [0])
     [(py_str ''bSnapTurn'', py_str ''BoolProperty'', VBool True)] = Inr None"
    using c [of "anchor_marker @ ascii ''bSnapTurn'' @ [0]"] d k s2 sb by blast
  ultimately show ?thesis using d s1 s2 by simp
qed

text \<open>
  C10 as first stated fails where the record of the unknown name does not encode: with
  the key bytes present and the value \<^verbatim>\<open>None\<close> the default table is not consulted,
  but the call ends in \<^verbatim>\<open>TypeError\<close> and does not complete.
\<close>

theorem C10_counterexample:
  "DEFAULT_SETTINGS (py_str ''bSnapTurn'') = None \<and>
   sublist (ascii ''bSnapTurn'' @ [0]) (anchor_marker @ ascii ''bSnapTurn'' @ [0]) \<and>
   locate_and_modify_player_settings (anchor_marker @ ascii ''bSnapTurn'' @ [0])
     [(py_str ''bSnapTurn'', py_str ''BoolProperty'', VNone)] = Inl TypeError"
  by code_simp

end
